theory Spec2Isabelle
  imports Complex_Main "HOL-Library.AList"
begin

section \<open>MusicMaker: the step sequencer of the App component\<close>

text \<open>
  The repository holds three revisions of the \<^verbatim>\<open>App\<close> component. This theory embeds the
  most recent one (the revision with the four instrument channels, the legato inference in
  \<^verbatim>\<open>repeat\<close> and the sample-loading guard). React state (\<^verbatim>\<open>useState\<close>) and refs
  (\<^verbatim>\<open>useRef\<close>) are the fields of one record, and every handler is a function from
  the record to the updated record. Calls into Tone.js that make a sound are returned as a
  list of trigger commands; the calls are recorded whether or not the voice then throws,
  since \<^verbatim>\<open>repeat\<close> catches per note.
\<close>

subsection \<open>Constants\<close>

definition NOTES :: "string list" where
  "NOTES = [''B'', ''A#'', ''A'', ''G#'', ''G'', ''F#'', ''F'', ''E'', ''D#'', ''D'', ''C#'', ''C'']"

definition OCTAVES :: "nat list" where
  "OCTAVES = [4, 3, 2, 1]"

definition MIN_MEASURES :: int where
  "MIN_MEASURES = 1"

definition MAX_MEASURES :: int where
  "MAX_MEASURES = 16"

definition BEATS_PER_MEASURE :: nat where
  "BEATS_PER_MEASURE = 4"

text \<open>\<^verbatim>\<open>CHORDS\<close>: a JavaScript object from the chord name to its semitone offsets. A name
  that is not a key reads as \<^verbatim>\<open>undefined\<close>, here \<open>None\<close>.\<close>

definition CHORDS :: "string \<Rightarrow> nat list option" where
  "CHORDS = map_of
     [(''major'', [0, 4, 7]),
      (''minor'', [0, 3, 7]),
      (''major7'', [0, 4, 7, 11]),
      (''minor7'', [0, 3, 7, 10]),
      (''dominant7'', [0, 4, 7, 10])]"

definition NOTE_NAMES :: "string list" where
  "NOTE_NAMES = [''C'', ''C#'', ''D'', ''D#'', ''E'', ''F'', ''F#'', ''G'', ''G#'', ''A'', ''A#'', ''B'']"

definition OCTAVE_RANGE :: "nat list" where
  "OCTAVE_RANGE = [1, 2, 3, 4, 5, 6]"

datatype InstrumentType = piano | guitar | violin | drum

datatype VoiceKind = synth | sampler

text \<open>\<^verbatim>\<open>INSTRUMENT_SETTINGS[inst].type\<close>, and the order of \<^verbatim>\<open>Object.keys(INSTRUMENT_SETTINGS)\<close>.\<close>

fun settingsType :: "InstrumentType \<Rightarrow> VoiceKind" where
  "settingsType piano = synth"
| "settingsType guitar = sampler"
| "settingsType violin = synth"
| "settingsType drum = sampler"

definition instrumentKeysAll :: "InstrumentType list" where
  "instrumentKeysAll = [piano, guitar, violin, drum]"

datatype PlaybackType = PlayAll | PlayCurrent

subsection \<open>Numbers as text\<close>

text \<open>The decimal text of a non-negative integer, as a template literal prints it.\<close>

definition digitChar :: "nat \<Rightarrow> char" where
  "digitChar d = ''0123456789'' ! d"

fun showNat :: "nat \<Rightarrow> string" where
  "showNat n = (if n < 10 then [digitChar n] else showNat (n div 10) @ [digitChar (n mod 10)])"

declare showNat.simps [simp del]

subsection \<open>The grid store\<close>

text \<open>
  \<^verbatim>\<open>TrackData = { [key: string]: boolean }\<close> with keys \<^verbatim>\<open>`${note}${octave}-${step}`\<close>.
  A key is kept here as the pair of its two parts, the text \<^verbatim>\<open>${note}${octave}\<close> before
  the dash and the step number after it, which is how \<^verbatim>\<open>repeat\<close> reads a key back
  (\<^verbatim>\<open>key.split('-')\<close>, \<^verbatim>\<open>parseInt\<close>). A JavaScript object lists its string keys in
  insertion order and an assignment to a present key keeps the key's place, so a track is
  an association list updated by \<^const>\<open>AList.update\<close>. A missing key reads as
  \<^verbatim>\<open>undefined\<close>, which is falsy.
\<close>

type_synonym CellKey = "string \<times> nat"

type_synonym TrackData = "(CellKey \<times> bool) list"

definition noteWithOctaveOf :: "string \<Rightarrow> nat \<Rightarrow> string" where
  "noteWithOctaveOf note octave = note @ showNat octave"

definition noteIdOf :: "string \<Rightarrow> nat \<Rightarrow> nat \<Rightarrow> CellKey" where
  "noteIdOf note octave step = (noteWithOctaveOf note octave, step)"

text \<open>
  The text of a key and its reading. \<open>noteIdText\<close> is the template literal
  \<^verbatim>\<open>`${noteWithOctave}-${step}`\<close>; \<open>readKey\<close> is the destructuring
  \<^verbatim>\<open>const [noteWithOctave, stepStr] = key.split('-')\<close> followed by
  \<^verbatim>\<open>parseInt(stepStr)\<close>, where \<open>None\<close> stands for \<^verbatim>\<open>NaN\<close>. \<open>parseInt\<close> is
  JavaScript's on a text that has no sign, blank or \<^verbatim>\<open>0x\<close> in front, as the text after
  the dash of a key has. The pairs above stand for these texts: a pitch text without a
  dash and a step are read back from their key text unchanged.
\<close>

definition noteIdText :: "string \<Rightarrow> nat \<Rightarrow> string" where
  "noteIdText noteWithOctave step = noteWithOctave @ ''-'' @ showNat step"

fun splitDash :: "string \<Rightarrow> string list" where
  "splitDash [] = [[]]"
| "splitDash (c # cs) =
     (if c = CHR ''-'' then [] # splitDash cs
      else (case splitDash cs of
              part # parts \<Rightarrow> (c # part) # parts
            | [] \<Rightarrow> [[c]]))"

definition isDigit :: "char \<Rightarrow> bool" where
  "isDigit c = (c \<in> set ''0123456789'')"

definition digitValue :: "char \<Rightarrow> nat" where
  "digitValue c = of_char c - 48"

definition parseInt :: "string \<Rightarrow> nat option" where
  "parseInt stepStr =
     (case takeWhile isDigit stepStr of
        [] \<Rightarrow> None
      | digits \<Rightarrow> Some (foldl (\<lambda>value c. value * 10 + digitValue c) 0 digits))"

definition readKey :: "string \<Rightarrow> string \<times> nat option" where
  "readKey key =
     (case splitDash key of
        [] \<Rightarrow> ([], None)
      | [noteWithOctave] \<Rightarrow> (noteWithOctave, None)
      | noteWithOctave # stepStr # _ \<Rightarrow> (noteWithOctave, parseInt stepStr))"

text \<open>\<^verbatim>\<open>track[key]\<close> used as a condition.\<close>

definition truthy :: "TrackData \<Rightarrow> CellKey \<Rightarrow> bool" where
  "truthy track key = (map_of track key = Some True)"

subsection \<open>The component state\<close>

record AppState =
  showChordSelector :: bool
  selectedChord :: string
  selectedRoot :: string
  selectedOctave :: nat
  chordDuration :: nat
  tracks :: "InstrumentType \<Rightarrow> TrackData"
  playbackType :: "PlaybackType option"
  currentStep :: nat
  bpm :: nat
  measuresCount :: nat
  isMouseDown :: bool
  lastToggled :: "(string \<times> nat \<times> nat) option"
  beatDivisions :: "nat \<Rightarrow> nat option"
  selectedInstrument :: InstrumentType
  isSamplesLoaded :: bool
  synths :: "InstrumentType \<Rightarrow> bool"
  playbackTypeRef :: "PlaybackType option"
  selectedInstrumentRef :: InstrumentType
  lastPlayedStep :: int
  transportPosition :: "nat \<times> nat \<times> rat"
  transportStarted :: bool

text \<open>
  \<open>measuresCount\<close> is the state \<^verbatim>\<open>measures\<close>; \<open>synths st inst\<close> says that
  \<^verbatim>\<open>synths.current?.[inst]\<close> is defined; \<open>transportPosition\<close> is
  \<^verbatim>\<open>Tone.Transport.position\<close> as bars, beats and sixteenths (the last may be a
  fraction); \<open>transportStarted\<close> says that the transport runs with \<^verbatim>\<open>repeat\<close>
  scheduled. The state after the first render and the mount effect:
\<close>

definition initialState :: AppState where
  "initialState =
     \<lparr> showChordSelector = False, selectedChord = ''major'', selectedRoot = ''C'',
       selectedOctave = 4, chordDuration = 1, tracks = (\<lambda>_. []), playbackType = None,
       currentStep = 0, bpm = 120, measuresCount = 4, isMouseDown = False,
       lastToggled = None, beatDivisions = (\<lambda>_. None), selectedInstrument = piano,
       isSamplesLoaded = False, synths = (\<lambda>_. True), playbackTypeRef = None,
       selectedInstrumentRef = piano, lastPlayedStep = - 1,
       transportPosition = (0, 0, 0), transportStarted = False \<rparr>"

subsection \<open>updateMeasures\<close>

text \<open>\<^verbatim>\<open>Math.min(Math.max(newMeasures, MIN_MEASURES), MAX_MEASURES)\<close>; the result is at
  least 1, so it is kept as a natural number.\<close>

definition clampMeasures :: "int \<Rightarrow> nat" where
  "clampMeasures newMeasures = nat (min (max newMeasures MIN_MEASURES) MAX_MEASURES)"

definition updateMeasures :: "AppState \<Rightarrow> int \<Rightarrow> AppState" where
  "updateMeasures st newMeasures =
     (let clampedMeasures = clampMeasures newMeasures;
          st1 = st\<lparr>measuresCount := clampedMeasures\<rparr>
      in if currentStep st \<ge> clampedMeasures * 16
         then (let st2 = st1\<lparr>currentStep := 0\<rparr>
               in if playbackType st \<noteq> None then st2\<lparr>transportPosition := (0, 0, 0)\<rparr> else st2)
         else st1)"

subsection \<open>addChord\<close>

text \<open>\<^verbatim>\<open>NOTE_NAMES.indexOf(selectedRoot)\<close>; \<open>None\<close> stands for the result \<^verbatim>\<open>-1\<close>.\<close>

fun indexOf :: "'a list \<Rightarrow> 'a \<Rightarrow> nat option" where
  "indexOf [] x = None"
| "indexOf (y # ys) x = (if y = x then Some 0 else map_option Suc (indexOf ys x))"

text \<open>\<^verbatim>\<open>CHORDS[selectedChord] || []\<close>.\<close>

definition chordIntervalsOf :: "string \<Rightarrow> nat list" where
  "chordIntervalsOf chord = (case CHORDS chord of Some intervals \<Rightarrow> intervals | None \<Rightarrow> [])"

text \<open>The body of \<^verbatim>\<open>chordIntervals.forEach\<close> at one step.\<close>

definition addInterval :: "nat \<Rightarrow> nat \<Rightarrow> nat \<Rightarrow> nat \<Rightarrow> TrackData \<Rightarrow> TrackData" where
  "addInterval rootIndex octave step interval newNotes =
     (let noteIndex = (rootIndex + interval) mod 12;
          octaveOffset = (rootIndex + interval) div 12;
          noteName = NOTE_NAMES ! noteIndex;
          noteOctave = octave + octaveOffset
      in if noteOctave \<ge> 1 \<and> noteOctave \<le> 6
         then AList.update (noteIdOf noteName noteOctave step) True newNotes
         else newNotes)"

definition addChord :: "AppState \<Rightarrow> AppState" where
  "addChord st =
     (if selectedInstrument st = drum then st
      else case indexOf NOTE_NAMES (selectedRoot st) of
        None \<Rightarrow> st
      | Some rootIndex \<Rightarrow>
         (let chordIntervals = chordIntervalsOf (selectedChord st);
              startBeat = currentStep st;
              endStep = min (startBeat + chordDuration st * 4) (measuresCount st * 16);
              newNotes = fold (\<lambda>step. fold (addInterval rootIndex (selectedOctave st) step) chordIntervals)
                           [startBeat..<endStep] (tracks st (selectedInstrument st))
          in st\<lparr>tracks := (tracks st)(selectedInstrument st := newNotes),
                 showChordSelector := False\<rparr>))"

text \<open>
  The cells \<^verbatim>\<open>addChord\<close> assigns, in the order of its two loops: the keys \<^verbatim>\<open>noteId\<close>
  for which \<^verbatim>\<open>newNotes[noteId] = true\<close> runs. It is empty on the two early returns.
\<close>

definition intervalCell :: "nat \<Rightarrow> nat \<Rightarrow> nat \<Rightarrow> nat \<Rightarrow> CellKey list" where
  "intervalCell rootIndex octave step interval =
     (let noteIndex = (rootIndex + interval) mod 12;
          octaveOffset = (rootIndex + interval) div 12;
          noteName = NOTE_NAMES ! noteIndex;
          noteOctave = octave + octaveOffset
      in if noteOctave \<ge> 1 \<and> noteOctave \<le> 6
         then [noteIdOf noteName noteOctave step]
         else [])"

definition chordWrites :: "AppState \<Rightarrow> CellKey list" where
  "chordWrites st =
     (if selectedInstrument st = drum then []
      else case indexOf NOTE_NAMES (selectedRoot st) of
        None \<Rightarrow> []
      | Some rootIndex \<Rightarrow>
         (let chordIntervals = chordIntervalsOf (selectedChord st);
              startBeat = currentStep st;
              endStep = min (startBeat + chordDuration st * 4) (measuresCount st * 16)
          in concat (map (\<lambda>step. concat (map (intervalCell rootIndex (selectedOctave st) step) chordIntervals))
                       [startBeat..<endStep])))"

subsection \<open>Editing the grid\<close>

text \<open>\<^verbatim>\<open>toggleNote\<close>, without the audition sound it plays for a cell switched on; the
  optional \<^verbatim>\<open>forceState\<close> is an \<open>option\<close>.\<close>

definition toggleNote :: "AppState \<Rightarrow> string \<Rightarrow> nat \<Rightarrow> nat \<Rightarrow> bool option \<Rightarrow> AppState" where
  "toggleNote st noteName octave noteStep forceState =
     (let noteId = noteIdOf noteName octave noteStep;
          newState = (case forceState of
                        Some b \<Rightarrow> b
                      | None \<Rightarrow> \<not> truthy (tracks st (selectedInstrument st)) noteId)
      in st\<lparr>tracks := (tracks st)(selectedInstrument st :=
                          AList.update noteId newState (tracks st (selectedInstrument st))),
             lastToggled := Some (noteName, octave, noteStep)\<rparr>)"

text \<open>The Clear button: \<^verbatim>\<open>setTracks(p => ({ ...p, [selectedInstrument]: {} }))\<close>.\<close>

definition clearTrack :: "AppState \<Rightarrow> AppState" where
  "clearTrack st = st\<lparr>tracks := (tracks st)(selectedInstrument st := [])\<rparr>"



subsection \<open>Beat subdivision\<close>

text \<open>\<^verbatim>\<open>beatDivisions[b] || 1\<close>: a missing entry and the falsy 0 both read as 1.\<close>

definition divisionOf :: "(nat \<Rightarrow> nat option) \<Rightarrow> nat \<Rightarrow> nat" where
  "divisionOf divisions b = (case divisions b of None \<Rightarrow> 1 | Some d \<Rightarrow> if d = 0 then 1 else d)"

definition toggleSplitAtPlayhead :: "AppState \<Rightarrow> AppState" where
  "toggleSplitAtPlayhead st =
     (let currentBeatIndex = currentStep st div 4;
          currentDiv = divisionOf (beatDivisions st) currentBeatIndex;
          nextDiv = (if currentDiv = 1 then 2 else if currentDiv = 2 then 4 else 1)
      in st\<lparr>beatDivisions := (beatDivisions st)(currentBeatIndex \<mapsto> nextDiv)\<rparr>)"

text \<open>
  The inner loop of \<^verbatim>\<open>renderGridRow\<close> for beat \<open>b\<close>: the \<^verbatim>\<open>absoluteStep\<close> of each cell
  it renders, in order. \<^verbatim>\<open>4 / division\<close> is a division of JavaScript numbers, taken here
  over the rationals (exact for the divisions 1, 2 and 4 the component stores).
\<close>

definition stepPositionsOf :: "(nat \<Rightarrow> nat option) \<Rightarrow> nat \<Rightarrow> rat list" where
  "stepPositionsOf divisions b =
     (let division = divisionOf divisions b;
          stepSize = 4 / of_nat division
      in map (\<lambda>i. of_nat b * 4 + of_nat i * stepSize) [0..<division])"

text \<open>\<^verbatim>\<open>renderGridRow\<close>: one container per beat of the arrangement, holding that beat's cells.\<close>

definition renderGridRow :: "AppState \<Rightarrow> rat list list" where
  "renderGridRow st =
     map (stepPositionsOf (beatDivisions st)) [0..<measuresCount st * BEATS_PER_MEASURE]"

text \<open>The click handler of a header cell at an integral \<^verbatim>\<open>absoluteStep\<close>.\<close>

definition headerClick :: "AppState \<Rightarrow> nat \<Rightarrow> AppState" where
  "headerClick st absoluteStep =
     st\<lparr>transportPosition :=
          (absoluteStep div 16, (absoluteStep mod 16) div 4, of_nat (absoluteStep mod 4)),
        currentStep := absoluteStep\<rparr>"

subsection \<open>Playback\<close>

definition stopPlayback :: "AppState \<Rightarrow> AppState" where
  "stopPlayback st = st\<lparr>transportStarted := False, playbackType := None, playbackTypeRef := None\<rparr>"

text \<open>\<^verbatim>\<open>startPlayback\<close>, after \<^verbatim>\<open>await Tone.start()\<close> has resolved.\<close>

definition startPlayback :: "AppState \<Rightarrow> PlaybackType \<Rightarrow> AppState" where
  "startPlayback st type =
     (if playbackType st = Some type then stopPlayback st
      else st\<lparr>playbackType := Some type,
              playbackTypeRef := Some type,
              transportPosition :=
                (currentStep st div 16, (currentStep st mod 16) div 4, of_nat (currentStep st mod 4)),
              lastPlayedStep := int (currentStep st) - 1,
              transportStarted := True\<rparr>)"

text \<open>\<^verbatim>\<open>Math.round\<close> on a non-negative number.\<close>

definition mathRound :: "rat \<Rightarrow> nat" where
  "mathRound x = nat \<lfloor>x + 1 / 2\<rfloor>"

text \<open>
  A sound command: the channel whose voice is called and the three arguments of
  \<^verbatim>\<open>synth.triggerAttackRelease(noteWithOctave, duration, time)\<close>. The duration is either the
  notation \<^verbatim>\<open>'16n'\<close> or \<^verbatim>\<open>Tone.Time('16n').toSeconds() * durationSteps\<close>, kept as the
  number of steps.
\<close>

datatype Duration = Sixteenth | Steps nat

type_synonym Trigger = "InstrumentType \<times> string \<times> Duration \<times> real"

text \<open>
  The loop \<^verbatim>\<open>while (track[`${noteWithOctave}-${nextStep}`]) { durationSteps++; nextStep++; }\<close>.
  It ends because a track has finitely many keys: \<open>lastStepOf\<close>, the largest step of a
  key, bounds the steps at which a cell can be truthy.
\<close>

definition lastStepOf :: "TrackData \<Rightarrow> nat" where
  "lastStepOf track = Max (insert 0 ((\<lambda>e. snd (fst e)) ` set track))"

function countRun :: "TrackData \<Rightarrow> string \<Rightarrow> nat \<Rightarrow> nat \<Rightarrow> nat" where
  "countRun track noteWithOctave durationSteps nextStep =
     (if truthy track (noteWithOctave, nextStep)
      then countRun track noteWithOctave (durationSteps + 1) (nextStep + 1)
      else durationSteps)"
  by pat_completeness auto
termination
proof (relation "measure (\<lambda>(track, noteWithOctave, durationSteps, nextStep). Suc (lastStepOf track) - nextStep)")
  show "wf (measure (\<lambda>(track, noteWithOctave, durationSteps, nextStep). Suc (lastStepOf track) - nextStep))"
    by simp
next
  fix track :: TrackData and noteWithOctave :: string and durationSteps nextStep :: nat
  assume "truthy track (noteWithOctave, nextStep)"
  then have "((noteWithOctave, nextStep), True) \<in> set track"
    by (simp add: truthy_def map_of_SomeD)
  then have "nextStep \<in> insert 0 ((\<lambda>e. snd (fst e)) ` set track)"
    by force
  then have "nextStep \<le> lastStepOf track"
    unfolding lastStepOf_def by (intro Max_ge) auto
  then show "((track, noteWithOctave, durationSteps + 1, nextStep + 1),
              (track, noteWithOctave, durationSteps, nextStep))
             \<in> measure (\<lambda>(track, noteWithOctave, durationSteps, nextStep). Suc (lastStepOf track) - nextStep)"
    by simp
qed

declare countRun.simps [simp del]

text \<open>The body of \<^verbatim>\<open>Object.keys(track).forEach\<close> for one key of the track of \<open>inst\<close>.\<close>

definition playKey :: "InstrumentType \<Rightarrow> TrackData \<Rightarrow> nat \<Rightarrow> real \<Rightarrow> CellKey \<Rightarrow> Trigger list" where
  "playKey inst track currentStepPos time key =
     (let noteWithOctave = fst key;
          step = snd key
      in if step = currentStepPos \<and> truthy track key
         then (if inst = drum
               then [(inst, noteWithOctave, Sixteenth, time)]
               else (let isContinuation =
                           (currentStepPos > 0 \<and> truthy track (noteWithOctave, currentStepPos - 1))
                     in if \<not> isContinuation
                        then [(inst, noteWithOctave,
                               Steps (countRun track noteWithOctave 1 (currentStepPos + 1)), time)]
                        else []))
         else [])"

text \<open>The body of \<^verbatim>\<open>instrumentKeys.forEach\<close> for one channel.\<close>

definition playInstrument :: "AppState \<Rightarrow> nat \<Rightarrow> real \<Rightarrow> InstrumentType \<Rightarrow> Trigger list" where
  "playInstrument st currentStepPos time inst =
     (let track = tracks st inst
      in if synths st inst
         then (if settingsType inst = sampler \<and> \<not> isSamplesLoaded st
               then []
               else concat (map (playKey inst track currentStepPos time) (map fst track)))
         else [])"

text \<open>The step a transport position stands for, before the reduction modulo the arrangement.\<close>

fun stepPosOf :: "nat \<times> nat \<times> rat \<Rightarrow> nat" where
  "stepPosOf (bars, beats, sixteenths) = bars * 16 + beats * 4 + mathRound sixteenths"

text \<open>
  The tick handler \<^verbatim>\<open>repeat(time)\<close>: it reads \<^verbatim>\<open>Tone.Transport.position\<close> and returns the
  new state with the sound commands it issued. The arrangement has at least one measure
  in every state the component reaches, so \<^verbatim>\<open>stepPos % totalSteps\<close> is \<open>mod\<close> there.
  The handler that \<^verbatim>\<open>startPlayback\<close> schedules is the closure of the render that
  scheduled it: it reads \<^verbatim>\<open>tracks\<close>, \<^verbatim>\<open>measures\<close> and \<^verbatim>\<open>isSamplesLoaded\<close> as they
  were then, and the two refs as they are now. The function below reads all of them from
  the state it is given, which is the same as long as grid, measures and loaded flag have
  not changed since playback started.
\<close>

definition repeat :: "AppState \<Rightarrow> real \<Rightarrow> AppState \<times> Trigger list" where
  "repeat st time =
     (let stepPos = stepPosOf (transportPosition st);
          totalSteps = measuresCount st * 16;
          currentStepPos = stepPos mod totalSteps;
          st1 = st\<lparr>currentStep := currentStepPos\<rparr>
      in if int currentStepPos \<noteq> lastPlayedStep st
         then (let instrumentKeys =
                     (if playbackTypeRef st = Some PlayAll
                      then instrumentKeysAll
                      else [selectedInstrumentRef st])
               in (st1\<lparr>lastPlayedStep := int currentStepPos\<rparr>,
                   concat (map (playInstrument st currentStepPos time) instrumentKeys)))
         else (st1, []))"

text \<open>
  The transport clock is outside the component: a tick is the position the clock has
  reached and the time it passes to the handler. \<open>runTicks\<close> lets the clock reach each
  position in turn, calls the handler there and collects the sound commands in order.
\<close>

type_synonym Tick = "(nat \<times> nat \<times> rat) \<times> real"

definition tick :: "AppState \<Rightarrow> Tick \<Rightarrow> AppState \<times> Trigger list" where
  "tick st t = repeat (st\<lparr>transportPosition := fst t\<rparr>) (snd t)"


subsection \<open>Playback passes\<close>







text \<open>The sound commands of a list that go to the voice of one channel for one pitch.\<close>

definition triggersFor :: "InstrumentType \<Rightarrow> string \<Rightarrow> Trigger list \<Rightarrow> Trigger list" where
  "triggersFor inst noteWithOctave triggers =
     filter (\<lambda>trigger. fst trigger = inst \<and> fst (snd trigger) = noteWithOctave) triggers"

subsection \<open>States used as examples\<close>

text \<open>Root A in octave 6, two steps before the end of the four measures: the third and the
  fifth of the chord would lie in octave 7.\<close>

definition highChordState :: AppState where
  "highChordState = initialState\<lparr>selectedRoot := ''A'', selectedOctave := 6, currentStep := 62\<rparr>"

text \<open>The first state with a chord type that \<^verbatim>\<open>CHORDS\<close> does not hold, and with the
  drums selected.\<close>

definition augmentedState :: AppState where
  "augmentedState = initialState\<lparr>selectedChord := ''augmented''\<rparr>"

definition drumState :: AppState where
  "drumState = initialState\<lparr>selectedInstrument := drum\<rparr>"

text \<open>The C major chord of the first state written at step 0, and playback of the piano
  started there.\<close>

definition chordPlayingState :: AppState where
  "chordPlayingState = startPlayback (addChord initialState) PlayCurrent"



text \<open>
  The cursor set to step 12, a C major chord of two beats added there while the arrangement
  has four measures (the cells of the steps 12 to 19), the arrangement then shrunk to one
  measure with the minus button, and playback of the piano started at step 12.
\<close>

definition shrunkState :: AppState where
  "shrunkState =
     startPlayback
       (updateMeasures
          (updateMeasures
             (updateMeasures
                (addChord ((headerClick initialState 12)\<lparr>chordDuration := 2\<rparr>))
                3)
             2)
          1)
       PlayCurrent"



section \<open>Properties\<close>

subsection \<open>Keys as text and as pairs\<close>

text \<open>
  The text of a key determines its pair: reading the key text of a dash-free pitch text
  and a step gives both back, so two such key texts are equal only for equal pairs, and
  the pitch texts \<^verbatim>\<open>addChord\<close> writes are dash-free.
\<close>

lemma splitDash_no_dash: "CHR ''-'' \<notin> set s \<Longrightarrow> splitDash s = [s]"
  by (induction s) auto

lemma splitDash_at_dash:
  "CHR ''-'' \<notin> set a \<Longrightarrow> splitDash (a @ CHR ''-'' # b) = a # splitDash b"
  by (induction a) auto

lemma digitChar_cases:
  "d < 10 \<Longrightarrow> isDigit (digitChar d) \<and> digitValue (digitChar d) = d \<and> digitChar d \<noteq> CHR ''-''"
proof -
  assume "d < 10"
  then consider "d = 0" | "d = 1" | "d = 2" | "d = 3" | "d = 4" | "d = 5" | "d = 6" | "d = 7"
    | "d = 8" | "d = 9"
    by atomize_elim arith
  then show ?thesis
    by cases (simp_all add: digitChar_def isDigit_def digitValue_def)
qed

lemma showNat_digits: "c \<in> set (showNat n) \<Longrightarrow> isDigit c \<and> c \<noteq> CHR ''-''"
proof (induction n rule: showNat.induct)
  case (1 n)
  show ?case
  proof (cases "n < 10")
    case True
    with "1.prems" show ?thesis
      by (subst (asm) showNat.simps) (simp add: digitChar_cases)
  next
    case False
    with "1.prems" "1.IH" show ?thesis
      by (subst (asm) showNat.simps) (auto simp: digitChar_cases)
  qed
qed

lemma showNat_not_empty: "showNat n \<noteq> []"
  by (subst showNat.simps) simp

lemma showNat_value:
  "foldl (\<lambda>value c. value * 10 + digitValue c) 0 (showNat n) = n"
proof (induction n rule: showNat.induct)
  case (1 n)
  show ?case
  proof (cases "n < 10")
    case True
    then show ?thesis
      by (subst showNat.simps) (simp add: digitChar_cases)
  next
    case False
    with "1.IH" show ?thesis
      by (subst showNat.simps) (simp add: digitChar_cases)
  qed
qed

lemma parseInt_showNat: "parseInt (showNat n) = Some n"
proof -
  have t: "takeWhile isDigit (showNat n) = showNat n"
    by (simp add: takeWhile_eq_all_conv showNat_digits)
  have "parseInt (showNat n) = Some (foldl (\<lambda>value c. value * 10 + digitValue c) 0 (showNat n))"
    unfolding parseInt_def t using showNat_not_empty [of n] by (cases "showNat n") simp_all
  then show ?thesis
    by (simp only: showNat_value)
qed

lemma readKey_noteIdText:
  "CHR ''-'' \<notin> set noteWithOctave \<Longrightarrow>
     readKey (noteIdText noteWithOctave step) = (noteWithOctave, Some step)"
proof -
  assume a: "CHR ''-'' \<notin> set noteWithOctave"
  have "CHR ''-'' \<notin> set (showNat step)"
    using showNat_digits by blast
  then have "splitDash (noteIdText noteWithOctave step) = [noteWithOctave, showNat step]"
    using a by (simp add: noteIdText_def splitDash_at_dash splitDash_no_dash)
  then show ?thesis
    by (simp add: readKey_def parseInt_showNat)
qed

lemma noteIdText_inject:
  assumes "CHR ''-'' \<notin> set p" and "CHR ''-'' \<notin> set q"
  shows "(noteIdText p step = noteIdText q step') = (p = q \<and> step = step')"
proof
  assume "noteIdText p step = noteIdText q step'"
  then have "readKey (noteIdText p step) = readKey (noteIdText q step')"
    by (rule arg_cong)
  then show "p = q \<and> step = step'"
    unfolding readKey_noteIdText [OF assms(1)] readKey_noteIdText [OF assms(2)] by simp
next
  assume "p = q \<and> step = step'"
  then show "noteIdText p step = noteIdText q step'"
    by simp
qed

lemma noteWithOctaveOf_no_dash:
  "noteName \<in> set NOTE_NAMES \<Longrightarrow> CHR ''-'' \<notin> set (noteWithOctaveOf noteName octave)"
proof -
  assume "noteName \<in> set NOTE_NAMES"
  then have "CHR ''-'' \<notin> set noteName"
    by (auto simp: NOTE_NAMES_def)
  moreover have "CHR ''-'' \<notin> set (showNat octave)"
    using showNat_digits by blast
  ultimately show ?thesis
    by (simp add: noteWithOctaveOf_def)
qed

subsection \<open>updateMeasures\<close>

text \<open>
  Claim C8. \<^verbatim>\<open>updateMeasures\<close> stores the requested count clamped into 1..16: a request
  below 1 gives 1, one above 16 gives 16, any other is stored as it is. The cursor becomes
  0 when it is at or beyond the new bound (clamped count times 16), and is unchanged when
  it is below the bound.
\<close>

theorem updateMeasures_clamp_reset:
  "measuresCount (updateMeasures st n) = (if n < 1 then 1 else if 16 < n then 16 else nat n)
   \<and> 1 \<le> measuresCount (updateMeasures st n)
   \<and> measuresCount (updateMeasures st n) \<le> 16
   \<and> currentStep (updateMeasures st n) =
       (if measuresCount (updateMeasures st n) * 16 \<le> currentStep st then 0 else currentStep st)"
proof -
  have c: "measuresCount (updateMeasures st n) = clampMeasures n"
    by (simp add: updateMeasures_def Let_def)
  have v: "clampMeasures n = (if n < 1 then 1 else if 16 < n then 16 else nat n)"
    by (simp add: clampMeasures_def MIN_MEASURES_def MAX_MEASURES_def min_def max_def)
  have b: "1 \<le> clampMeasures n \<and> clampMeasures n \<le> 16"
    unfolding v by auto
  have s: "currentStep (updateMeasures st n) =
       (if clampMeasures n * 16 \<le> currentStep st then 0 else currentStep st)"
    by (simp add: updateMeasures_def Let_def)
  show ?thesis
    using c v b s by simp
qed

theorem updateMeasures_clamp_reset_witness:
  "measuresCount (updateMeasures (initialState\<lparr>currentStep := 40\<rparr>) 2) = 2
   \<and> currentStep (updateMeasures (initialState\<lparr>currentStep := 40\<rparr>) 2) = 0
   \<and> currentStep (updateMeasures (initialState\<lparr>currentStep := 40\<rparr>) 3) = 40
   \<and> measuresCount (updateMeasures initialState 99) = 16
   \<and> measuresCount (updateMeasures initialState (- 5)) = 1"
  using updateMeasures_clamp_reset [of "initialState\<lparr>currentStep := 40\<rparr>" 2]
        updateMeasures_clamp_reset [of "initialState\<lparr>currentStep := 40\<rparr>" 3]
        updateMeasures_clamp_reset [of initialState 99]
        updateMeasures_clamp_reset [of initialState "- 5"]
  by (simp add: initialState_def)

text \<open>
  Claim C10. \<^verbatim>\<open>updateMeasures\<close> leaves the grid store as it was: every channel's track
  after the call is the track before it, whatever the requested count, so cells at steps
  beyond a shrunk arrangement stay stored.
\<close>

theorem updateMeasures_keeps_tracks:
  "tracks (updateMeasures st n) = tracks st"
  by (simp add: updateMeasures_def Let_def)

theorem updateMeasures_keeps_tracks_witness:
  "tracks (updateMeasures (initialState\<lparr>tracks := (\<lambda>_. [((''C4'', 40), True)])\<rparr>) 1) piano
     = [((''C4'', 40), True)]"
  using updateMeasures_keeps_tracks [of "initialState\<lparr>tracks := (\<lambda>_. [((''C4'', 40), True)])\<rparr>" 1]
  by (simp add: initialState_def)

subsection \<open>Beat subdivision\<close>

lemma stepPositionsOf_unfold:
  "stepPositionsOf divisions b =
     map (\<lambda>i. of_nat b * 4 + of_nat i * (4 / of_nat (divisionOf divisions b)))
       [0..<divisionOf divisions b]"
  by (simp add: stepPositionsOf_def Let_def)

lemma upt_4: "[0..<4] = [0, 1, 2, 3::nat]"
  by (simp add: upt_rec)

lemma toggleSplit_twice_division:
  assumes "divisionOf (beatDivisions st) (currentStep st div 4) = 1"
  shows "divisionOf (beatDivisions (toggleSplitAtPlayhead (toggleSplitAtPlayhead st))) b =
         (if b = currentStep st div 4 then 4 else divisionOf (beatDivisions st) b)"
  using assms by (simp add: toggleSplitAtPlayhead_def Let_def divisionOf_def)

text \<open>
  Claim C9. Let the cursor stand in beat 2 and let beat 2 be undivided. The cells of beat 2
  then start at [8]; after the split button has taken the beat's division from 1 over 2 to
  4 they start at [8, 9, 10, 11], and the cells of every other beat start where they did
  before. In general the cells of a beat \<open>b\<close> with division \<open>d\<close> start at
  \<open>b * 4 + i * (4 / d)\<close> for \<open>i\<close> from 0 below \<open>d\<close>.
\<close>

theorem subdivision_of_beat_two:
  "divisionOf (beatDivisions st) 2 = 1 \<Longrightarrow> currentStep st div 4 = 2 \<Longrightarrow>
     stepPositionsOf (beatDivisions st) 2 = [8]
   \<and> stepPositionsOf (beatDivisions (toggleSplitAtPlayhead (toggleSplitAtPlayhead st))) 2 = [8, 9, 10, 11]
   \<and> (\<forall>b. b \<noteq> 2 \<longrightarrow>
         stepPositionsOf (beatDivisions (toggleSplitAtPlayhead (toggleSplitAtPlayhead st))) b
           = stepPositionsOf (beatDivisions st) b)
   \<and> (\<forall>divisions b. stepPositionsOf divisions b =
         map (\<lambda>i. of_nat b * 4 + of_nat i * (4 / of_nat (divisionOf divisions b)))
           [0..<divisionOf divisions b])"
proof -
  assume d: "divisionOf (beatDivisions st) 2 = 1" and c: "currentStep st div 4 = 2"
  let ?st' = "toggleSplitAtPlayhead (toggleSplitAtPlayhead st)"
  have t: "\<And>b. divisionOf (beatDivisions ?st') b = (if b = 2 then 4 else divisionOf (beatDivisions st) b)"
    using toggleSplit_twice_division [of st] d c by simp
  have before: "stepPositionsOf (beatDivisions st) 2 = [8]"
    by (simp add: stepPositionsOf_unfold d)
  have after: "stepPositionsOf (beatDivisions ?st') 2 = [8, 9, 10, 11]"
    by (simp add: stepPositionsOf_unfold t upt_4)
  have others: "\<forall>b. b \<noteq> 2 \<longrightarrow> stepPositionsOf (beatDivisions ?st') b = stepPositionsOf (beatDivisions st) b"
    by (simp add: stepPositionsOf_unfold t)
  show ?thesis
    using before after others stepPositionsOf_unfold by blast
qed

theorem subdivision_of_beat_two_witness:
  "stepPositionsOf (beatDivisions (initialState\<lparr>currentStep := 9\<rparr>)) 2 = [8]
   \<and> stepPositionsOf (beatDivisions (toggleSplitAtPlayhead (toggleSplitAtPlayhead
        (initialState\<lparr>currentStep := 9\<rparr>)))) 2 = [8, 9, 10, 11]
   \<and> stepPositionsOf (beatDivisions (toggleSplitAtPlayhead (toggleSplitAtPlayhead
        (initialState\<lparr>currentStep := 9\<rparr>)))) 3 = [12]
   \<and> stepPositionsOf (beatDivisions (initialState\<lparr>currentStep := 9\<rparr>)) 3 = [12]"
proof -
  let ?st = "initialState\<lparr>currentStep := 9\<rparr>"
  have d: "divisionOf (beatDivisions ?st) 2 = 1"
    by (simp add: initialState_def divisionOf_def)
  have c: "currentStep ?st div 4 = 2"
    by simp
  have three: "stepPositionsOf (beatDivisions ?st) 3 = [12]"
    by (simp add: stepPositionsOf_def initialState_def divisionOf_def)
  note r = subdivision_of_beat_two [OF d c]
  from r have b2: "stepPositionsOf (beatDivisions ?st) 2 = [8]"
    by (rule conjunct1)
  from r have a2: "stepPositionsOf (beatDivisions (toggleSplitAtPlayhead (toggleSplitAtPlayhead ?st))) 2
      = [8, 9, 10, 11]"
    by blast
  from r have "(3::nat) \<noteq> 2 \<longrightarrow>
      stepPositionsOf (beatDivisions (toggleSplitAtPlayhead (toggleSplitAtPlayhead ?st))) 3
      = stepPositionsOf (beatDivisions ?st) 3"
    by blast
  then have a3: "stepPositionsOf (beatDivisions (toggleSplitAtPlayhead (toggleSplitAtPlayhead ?st))) 3 = [12]"
    using three by simp
  show ?thesis
    using b2 a2 a3 three by blast
qed

subsection \<open>addChord\<close>

text \<open>The two loops of \<^verbatim>\<open>addChord\<close> assign \<^verbatim>\<open>true\<close> to the cells of \<open>chordWrites\<close>, in order.\<close>

lemma addInterval_as_writes:
  "addInterval rootIndex octave step interval newNotes =
     fold (\<lambda>key. AList.update key True) (intervalCell rootIndex octave step interval) newNotes"
  by (simp add: addInterval_def intervalCell_def Let_def)

lemma fold_addInterval_as_writes:
  "fold (addInterval rootIndex octave step) intervals newNotes =
     fold (\<lambda>key. AList.update key True)
       (concat (map (intervalCell rootIndex octave step) intervals)) newNotes"
  by (induction intervals arbitrary: newNotes) (simp_all add: addInterval_as_writes)

lemma fold_steps_as_writes:
  "fold (\<lambda>step. fold (addInterval rootIndex octave step) intervals) steps newNotes =
     fold (\<lambda>key. AList.update key True)
       (concat (map (\<lambda>step. concat (map (intervalCell rootIndex octave step) intervals)) steps))
       newNotes"
  by (induction steps arbitrary: newNotes) (simp_all add: fold_addInterval_as_writes)

lemma addChord_tracks:
  "tracks (addChord st) =
     (tracks st)(selectedInstrument st :=
        fold (\<lambda>key. AList.update key True) (chordWrites st) (tracks st (selectedInstrument st)))"
  by (simp add: addChord_def chordWrites_def Let_def fold_steps_as_writes split: option.splits)

lemma map_of_fold_update:
  "map_of (fold (\<lambda>key. AList.update key True) keys track) key =
     (if key \<in> set keys then Some True else map_of track key)"
  by (induction keys arbitrary: track) (auto simp: update_conv')

lemma distinct_fold_update:
  "distinct (map fst track) \<Longrightarrow>
     distinct (map fst (fold (\<lambda>key. AList.update key True) keys (track :: TrackData)))"
  by (induction keys arbitrary: track) (simp_all add: distinct_update)

lemma addChord_cell:
  "map_of (tracks (addChord st) (selectedInstrument st)) key =
     (if key \<in> set (chordWrites st) then Some True
      else map_of (tracks st (selectedInstrument st)) key)"
  by (simp add: addChord_tracks map_of_fold_update)

lemma addChord_other_channel:
  "inst \<noteq> selectedInstrument st \<Longrightarrow> tracks (addChord st) inst = tracks st inst"
  by (simp add: addChord_tracks)

lemma set_intervalCell:
  "set (intervalCell rootIndex octave step interval) =
     {key. key = noteIdOf (NOTE_NAMES ! ((rootIndex + interval) mod 12))
                   (octave + (rootIndex + interval) div 12) step
           \<and> 1 \<le> octave + (rootIndex + interval) div 12
           \<and> octave + (rootIndex + interval) div 12 \<le> 6}"
  by (auto simp: intervalCell_def Let_def)

lemma set_chordWrites:
  assumes "selectedInstrument st \<noteq> drum"
    and "indexOf NOTE_NAMES (selectedRoot st) = Some rootIndex"
  shows "set (chordWrites st) =
     {key. \<exists>interval step.
        key = noteIdOf (NOTE_NAMES ! ((rootIndex + interval) mod 12))
                (selectedOctave st + (rootIndex + interval) div 12) step
        \<and> interval \<in> set (chordIntervalsOf (selectedChord st))
        \<and> currentStep st \<le> step
        \<and> step < min (currentStep st + chordDuration st * 4) (measuresCount st * 16)
        \<and> 1 \<le> selectedOctave st + (rootIndex + interval) div 12
        \<and> selectedOctave st + (rootIndex + interval) div 12 \<le> 6}"
  using assms by (auto simp: chordWrites_def Let_def set_intervalCell) blast

lemma showNat_digit: "n < 10 \<Longrightarrow> showNat n = [digitChar n]"
  by (simp add: showNat.simps)

lemma indexOf_C: "indexOf NOTE_NAMES ''C'' = Some 0"
  by (simp add: NOTE_NAMES_def)

lemma chordWrites_C_major:
  assumes "selectedInstrument st \<noteq> drum" and "selectedRoot st = ''C''"
    and "selectedOctave st = 4" and "selectedChord st = ''major''"
    and "currentStep st = 0" and "chordDuration st = 1" and "1 \<le> measuresCount st"
  shows "chordWrites st =
     [(''C4'', 0), (''E4'', 0), (''G4'', 0), (''C4'', 1), (''E4'', 1), (''G4'', 1),
      (''C4'', 2), (''E4'', 2), (''G4'', 2), (''C4'', 3), (''E4'', 3), (''G4'', 3)]"
proof -
  have e: "min (4::nat) (measuresCount st * 16) = 4"
    using assms(7) by simp
  have u: "[0..<4] = [0, 1, 2, 3::nat]"
    by (simp add: upt_rec)
  have iv: "chordIntervalsOf ''major'' = [0, 4, 7]"
    by (simp add: chordIntervalsOf_def CHORDS_def)
  have four: "showNat 4 = ''4''"
    by (simp add: showNat_digit digitChar_def)
  have cell: "\<And>step. intervalCell 0 4 step 0 = [(''C4'', step)]"
    "\<And>step. intervalCell 0 4 step 4 = [(''E4'', step)]"
    "\<And>step. intervalCell 0 4 step 7 = [(''G4'', step)]"
    by (simp_all add: intervalCell_def Let_def noteIdOf_def noteWithOctaveOf_def NOTE_NAMES_def four)
  show ?thesis
    using assms(1) by (simp add: chordWrites_def Let_def assms(2-6) indexOf_C e u iv cell)
qed

text \<open>
  Claim C5. On a channel other than the drums, with root C, octave 4, chord type major,
  the cursor at step 0, a duration of 1 beat and at least one measure, \<^verbatim>\<open>addChord\<close>
  assigns exactly the cells of the pitches C4, E4 and G4 at the steps 0, 1, 2 and 3: after
  the call those twelve cells are active, every other cell of the channel reads as it did
  before, and the other channels are untouched.
\<close>

theorem addChord_C_major:
  assumes "selectedInstrument st \<noteq> drum" and "selectedRoot st = ''C''"
    and "selectedOctave st = 4" and "selectedChord st = ''major''"
    and "currentStep st = 0" and "chordDuration st = 1" and "1 \<le> measuresCount st"
  shows "set (chordWrites st) = {''C4'', ''E4'', ''G4''} \<times> {0, 1, 2, 3}
       \<and> (\<forall>key. map_of (tracks (addChord st) (selectedInstrument st)) key =
             (if key \<in> {''C4'', ''E4'', ''G4''} \<times> {0, 1, 2, 3} then Some True
              else map_of (tracks st (selectedInstrument st)) key))
       \<and> (\<forall>inst. inst \<noteq> selectedInstrument st \<longrightarrow> tracks (addChord st) inst = tracks st inst)"
proof -
  have w: "set (chordWrites st) = {''C4'', ''E4'', ''G4''} \<times> {0, 1, 2, 3}"
    unfolding chordWrites_C_major [OF assms] by auto
  have c: "\<forall>key. map_of (tracks (addChord st) (selectedInstrument st)) key =
             (if key \<in> {''C4'', ''E4'', ''G4''} \<times> {0, 1, 2, 3} then Some True
              else map_of (tracks st (selectedInstrument st)) key)"
    using addChord_cell [of st] unfolding w by (intro allI)
  have o: "\<forall>inst. inst \<noteq> selectedInstrument st \<longrightarrow> tracks (addChord st) inst = tracks st inst"
    by (simp add: addChord_other_channel)
  from w c o show ?thesis
    by (intro conjI)
qed

theorem addChord_C_major_witness:
  "set (chordWrites initialState) = {''C4'', ''E4'', ''G4''} \<times> {0, 1, 2, 3}
   \<and> map_of (tracks (addChord initialState) piano) (''E4'', 3) = Some True
   \<and> map_of (tracks (addChord initialState) piano) (''E4'', 4) = None
   \<and> map_of (tracks (addChord initialState) piano) (''F4'', 0) = None
   \<and> tracks (addChord initialState) guitar = []"
proof -
  have h: "selectedInstrument initialState \<noteq> drum" "selectedRoot initialState = ''C''"
    "selectedOctave initialState = 4" "selectedChord initialState = ''major''"
    "currentStep initialState = 0" "chordDuration initialState = 1"
    "1 \<le> measuresCount initialState"
    by (simp_all add: initialState_def)
  note r = addChord_C_major [OF h]
  have sel: "selectedInstrument initialState = piano" and old: "tracks initialState = (\<lambda>_. [])"
    by (simp_all add: initialState_def)
  from r have w: "set (chordWrites initialState) = {''C4'', ''E4'', ''G4''} \<times> {0, 1, 2, 3}"
    by (rule conjunct1)
  from r have c: "\<And>key. map_of (tracks (addChord initialState) piano) key =
             (if key \<in> {''C4'', ''E4'', ''G4''} \<times> {0, 1, 2, 3} then Some True
              else map_of (tracks initialState piano) key)"
    unfolding sel by blast
  from r have "guitar \<noteq> piano \<longrightarrow> tracks (addChord initialState) guitar = tracks initialState guitar"
    unfolding sel by blast
  then have g: "tracks (addChord initialState) guitar = []"
    by (simp add: old)
  have c1: "map_of (tracks (addChord initialState) piano) (''E4'', 3) = Some True"
    by (simp add: c)
  have c2: "map_of (tracks (addChord initialState) piano) (''E4'', 4) = None"
    by (simp add: c old)
  have c3: "map_of (tracks (addChord initialState) piano) (''F4'', 0) = None"
    by (simp add: c old)
  from w c1 c2 c3 g show ?thesis
    by (intro conjI)
qed

text \<open>
  Claim C6. For every state, the cells \<^verbatim>\<open>addChord\<close> assigns are exactly these: the
  channel is not the drums, the root is a name of \<^verbatim>\<open>NOTE_NAMES\<close>, and the cell is the
  tone of one interval of the chord at a step from the cursor up to, but not including, the
  smaller of cursor plus four times the duration and sixteen times the measures, where the
  tone's octave lies in 1..6. A tone whose octave lies outside 1..6 gives no cell and the
  other tones keep theirs. After the call the assigned cells are active, every other cell
  of the channel reads as before, and the other channels are untouched.
\<close>

theorem addChord_range_and_octaves:
  "set (chordWrites st) =
     {key. selectedInstrument st \<noteq> drum \<and>
        (\<exists>rootIndex interval step.
           indexOf NOTE_NAMES (selectedRoot st) = Some rootIndex
         \<and> interval \<in> set (chordIntervalsOf (selectedChord st))
         \<and> currentStep st \<le> step
         \<and> step < min (currentStep st + chordDuration st * 4) (measuresCount st * 16)
         \<and> 1 \<le> selectedOctave st + (rootIndex + interval) div 12
         \<and> selectedOctave st + (rootIndex + interval) div 12 \<le> 6
         \<and> key = noteIdOf (NOTE_NAMES ! ((rootIndex + interval) mod 12))
                   (selectedOctave st + (rootIndex + interval) div 12) step)}
   \<and> (\<forall>key. map_of (tracks (addChord st) (selectedInstrument st)) key =
          (if key \<in> set (chordWrites st) then Some True
           else map_of (tracks st (selectedInstrument st)) key))
   \<and> (\<forall>inst. inst \<noteq> selectedInstrument st \<longrightarrow> tracks (addChord st) inst = tracks st inst)"
proof -
  have w: "set (chordWrites st) =
     {key. selectedInstrument st \<noteq> drum \<and>
        (\<exists>rootIndex interval step.
           indexOf NOTE_NAMES (selectedRoot st) = Some rootIndex
         \<and> interval \<in> set (chordIntervalsOf (selectedChord st))
         \<and> currentStep st \<le> step
         \<and> step < min (currentStep st + chordDuration st * 4) (measuresCount st * 16)
         \<and> 1 \<le> selectedOctave st + (rootIndex + interval) div 12
         \<and> selectedOctave st + (rootIndex + interval) div 12 \<le> 6
         \<and> key = noteIdOf (NOTE_NAMES ! ((rootIndex + interval) mod 12))
                   (selectedOctave st + (rootIndex + interval) div 12) step)}"
  proof (cases "selectedInstrument st = drum")
    case True
    then show ?thesis
      by (simp add: chordWrites_def)
  next
    case notDrum: False
    show ?thesis
    proof (cases "indexOf NOTE_NAMES (selectedRoot st)")
      case None
      then show ?thesis
        using notDrum by (simp add: chordWrites_def)
    next
      case (Some rootIndex)
      show ?thesis
        unfolding set_chordWrites [OF notDrum Some] using notDrum Some by auto
    qed
  qed
  have c: "\<forall>key. map_of (tracks (addChord st) (selectedInstrument st)) key =
          (if key \<in> set (chordWrites st) then Some True
           else map_of (tracks st (selectedInstrument st)) key)"
    using addChord_cell [of st] by (intro allI)
  have o: "\<forall>inst. inst \<noteq> selectedInstrument st \<longrightarrow> tracks (addChord st) inst = tracks st inst"
    by (simp add: addChord_other_channel)
  from w c o show ?thesis
    by (intro conjI)
qed

lemma chordWrites_highChordState:
  "chordWrites highChordState = [(''A6'', 62), (''A6'', 63)]"
  by code_simp

theorem addChord_range_and_octaves_witness:
  "chordWrites highChordState = [(''A6'', 62), (''A6'', 63)]
   \<and> map_of (tracks (addChord highChordState) piano) (''A6'', 63) = Some True
   \<and> map_of (tracks (addChord highChordState) piano) (''A6'', 64) = None
   \<and> map_of (tracks (addChord highChordState) piano) (''C#7'', 62) = None
   \<and> map_of (tracks (addChord highChordState) piano) (''E7'', 62) = None"
proof -
  have sel: "selectedInstrument highChordState = piano"
    and old: "tracks highChordState = (\<lambda>_. [])"
    by (simp_all add: highChordState_def initialState_def)
  from addChord_range_and_octaves [of highChordState]
  have c: "\<And>key. map_of (tracks (addChord highChordState) piano) key =
          (if key \<in> set (chordWrites highChordState) then Some True
           else map_of (tracks highChordState piano) key)"
    unfolding sel by blast
  have c1: "map_of (tracks (addChord highChordState) piano) (''A6'', 63) = Some True"
    by (simp add: c chordWrites_highChordState)
  have c2: "map_of (tracks (addChord highChordState) piano) (''A6'', 64) = None"
    by (simp add: c chordWrites_highChordState old)
  have c3: "map_of (tracks (addChord highChordState) piano) (''C#7'', 62) = None"
    by (simp add: c chordWrites_highChordState old)
  have c4: "map_of (tracks (addChord highChordState) piano) (''E7'', 62) = None"
    by (simp add: c chordWrites_highChordState old)
  from chordWrites_highChordState c1 c2 c3 c4 show ?thesis
    by (intro conjI)
qed

lemma indexOf_Some:
  "indexOf xs x = Some i \<Longrightarrow> i < length xs \<and> xs ! i = x"
  by (induction xs arbitrary: i) (auto split: if_splits)

lemma CHORDS_root_first:
  "CHORDS chord = Some intervals \<Longrightarrow> 0 \<in> set intervals"
  by (auto simp: CHORDS_def split: if_splits)

lemma addChord_early_return:
  "selectedInstrument st = drum \<or> indexOf NOTE_NAMES (selectedRoot st) = None \<Longrightarrow>
     chordWrites st = [] \<and> addChord st = st"
  by (auto simp: chordWrites_def addChord_def)

lemma addChord_unknown_chord:
  "CHORDS (selectedChord st) = None \<Longrightarrow> chordWrites st = [] \<and> tracks (addChord st) = tracks st"
proof -
  assume "CHORDS (selectedChord st) = None"
  then have w: "chordWrites st = []"
    by (simp add: chordWrites_def chordIntervalsOf_def Let_def split: option.splits)
  show ?thesis
    using w addChord_tracks [of st] by simp
qed

lemma addChord_writes_root:
  assumes "selectedInstrument st \<noteq> drum"
    and "indexOf NOTE_NAMES (selectedRoot st) = Some rootIndex"
    and "CHORDS (selectedChord st) = Some intervals"
    and "1 \<le> selectedOctave st" and "selectedOctave st \<le> 6"
    and "1 \<le> chordDuration st" and "currentStep st < measuresCount st * 16"
  shows "noteIdOf (selectedRoot st) (selectedOctave st) (currentStep st) \<in> set (chordWrites st)"
proof -
  from indexOf_Some [OF assms(2)]
  have r: "rootIndex < 12" and n: "NOTE_NAMES ! rootIndex = selectedRoot st"
    by (simp_all add: NOTE_NAMES_def)
  have z: "0 \<in> set (chordIntervalsOf (selectedChord st))"
    using CHORDS_root_first [OF assms(3)] by (simp add: chordIntervalsOf_def assms(3))
  have b: "currentStep st < min (currentStep st + chordDuration st * 4) (measuresCount st * 16)"
    using assms(6,7) by simp
  have "\<exists>interval step.
        noteIdOf (selectedRoot st) (selectedOctave st) (currentStep st)
          = noteIdOf (NOTE_NAMES ! ((rootIndex + interval) mod 12))
                (selectedOctave st + (rootIndex + interval) div 12) step
        \<and> interval \<in> set (chordIntervalsOf (selectedChord st))
        \<and> currentStep st \<le> step
        \<and> step < min (currentStep st + chordDuration st * 4) (measuresCount st * 16)
        \<and> 1 \<le> selectedOctave st + (rootIndex + interval) div 12
        \<and> selectedOctave st + (rootIndex + interval) div 12 \<le> 6"
    using r n z b assms(4,5)
    by (intro exI [of _ 0] exI [of _ "currentStep st"]) simp
  then show ?thesis
    unfolding set_chordWrites [OF assms(1,2)] by simp
qed

text \<open>
  Claim C7, amended. \<^verbatim>\<open>addChord\<close> assigns no cell and returns the state as it was when
  the channel is the drums or the root is not a name of \<^verbatim>\<open>NOTE_NAMES\<close>. It also assigns
  no cell, and leaves every track as it was, when the chord type is not a key of
  \<^verbatim>\<open>CHORDS\<close>. On a channel other than the drums, with a root of \<^verbatim>\<open>NOTE_NAMES\<close>, a
  chord type of \<^verbatim>\<open>CHORDS\<close>, an octave in 1..6, a duration of at least one beat and the
  cursor inside the arrangement, it assigns the root tone at the cursor step, which is
  active afterwards.
\<close>

theorem addChord_silent_cases:
  "(selectedInstrument st = drum \<or> indexOf NOTE_NAMES (selectedRoot st) = None \<longrightarrow>
      chordWrites st = [] \<and> addChord st = st)
   \<and> (CHORDS (selectedChord st) = None \<longrightarrow>
      chordWrites st = [] \<and> tracks (addChord st) = tracks st)
   \<and> (selectedInstrument st \<noteq> drum \<and> indexOf NOTE_NAMES (selectedRoot st) \<noteq> None
       \<and> CHORDS (selectedChord st) \<noteq> None
       \<and> 1 \<le> selectedOctave st \<and> selectedOctave st \<le> 6
       \<and> 1 \<le> chordDuration st \<and> currentStep st < measuresCount st * 16 \<longrightarrow>
      noteIdOf (selectedRoot st) (selectedOctave st) (currentStep st) \<in> set (chordWrites st)
      \<and> truthy (tracks (addChord st) (selectedInstrument st))
           (noteIdOf (selectedRoot st) (selectedOctave st) (currentStep st)))"
proof (intro conjI impI)
  assume "selectedInstrument st = drum \<or> indexOf NOTE_NAMES (selectedRoot st) = None"
  from addChord_early_return [OF this]
  show "chordWrites st = []" and "addChord st = st"
    by simp_all
next
  assume "CHORDS (selectedChord st) = None"
  from addChord_unknown_chord [OF this]
  show "chordWrites st = []" and "tracks (addChord st) = tracks st"
    by simp_all
next
  assume a: "selectedInstrument st \<noteq> drum \<and> indexOf NOTE_NAMES (selectedRoot st) \<noteq> None
       \<and> CHORDS (selectedChord st) \<noteq> None
       \<and> 1 \<le> selectedOctave st \<and> selectedOctave st \<le> 6
       \<and> 1 \<le> chordDuration st \<and> currentStep st < measuresCount st * 16"
  then obtain rootIndex intervals
    where "indexOf NOTE_NAMES (selectedRoot st) = Some rootIndex"
      and "CHORDS (selectedChord st) = Some intervals"
    by auto
  with a have m: "noteIdOf (selectedRoot st) (selectedOctave st) (currentStep st) \<in> set (chordWrites st)"
    by (intro addChord_writes_root) simp_all
  show "noteIdOf (selectedRoot st) (selectedOctave st) (currentStep st) \<in> set (chordWrites st)"
    by (rule m)
  show "truthy (tracks (addChord st) (selectedInstrument st))
           (noteIdOf (selectedRoot st) (selectedOctave st) (currentStep st))"
    using m by (simp add: truthy_def addChord_cell)
qed

theorem addChord_silent_cases_witness:
  "addChord drumState = drumState
   \<and> chordWrites augmentedState = []
   \<and> (''C4'', 0) \<in> set (chordWrites initialState)
   \<and> truthy (tracks (addChord initialState) piano) (''C4'', 0)"
proof -
  note d = addChord_silent_cases [of drumState]
  note a = addChord_silent_cases [of augmentedState]
  note i = addChord_silent_cases [of initialState]
  have hd: "selectedInstrument drumState = drum"
    by (simp add: drumState_def)
  have ha: "CHORDS (selectedChord augmentedState) = None"
    by (simp add: augmentedState_def CHORDS_def)
  have hi: "selectedInstrument initialState \<noteq> drum \<and> indexOf NOTE_NAMES (selectedRoot initialState) \<noteq> None
       \<and> CHORDS (selectedChord initialState) \<noteq> None
       \<and> 1 \<le> selectedOctave initialState \<and> selectedOctave initialState \<le> 6
       \<and> 1 \<le> chordDuration initialState
       \<and> currentStep initialState < measuresCount initialState * 16"
    by (simp add: initialState_def NOTE_NAMES_def CHORDS_def)
  have k: "noteIdOf (selectedRoot initialState) (selectedOctave initialState) (currentStep initialState)
      = (''C4'', 0)"
    by code_simp
  have sel: "selectedInstrument initialState = piano"
    by (simp add: initialState_def)
  from d hd have r1: "addChord drumState = drumState"
    by blast
  from a ha have r2: "chordWrites augmentedState = []"
    by blast
  from i hi have r3: "(''C4'', 0) \<in> set (chordWrites initialState)"
    unfolding k by blast
  from i hi have r4: "truthy (tracks (addChord initialState) piano) (''C4'', 0)"
    unfolding k sel by blast
  from r1 r2 r3 r4 show ?thesis
    by (intro conjI)
qed

text \<open>
  Claim C7 as stated fails: with the chord type \<^verbatim>\<open>augmented\<close>, which is not a key of
  \<^verbatim>\<open>CHORDS\<close> in this revision, the channel is the piano and the root C is recognised,
  yet \<^verbatim>\<open>CHORDS[selectedChord] || []\<close> is empty, no cell is assigned and the tracks are
  unchanged.
\<close>

theorem addChord_unknown_chord_counterexample:
  "selectedInstrument augmentedState \<noteq> drum
   \<and> indexOf NOTE_NAMES (selectedRoot augmentedState) = Some 0
   \<and> chordWrites augmentedState = []
   \<and> tracks (addChord augmentedState) = tracks augmentedState"
proof -
  have 1: "selectedInstrument augmentedState \<noteq> drum"
    by (simp add: augmentedState_def initialState_def)
  have 2: "indexOf NOTE_NAMES (selectedRoot augmentedState) = Some 0"
    by (simp add: augmentedState_def initialState_def NOTE_NAMES_def)
  have 3: "chordWrites augmentedState = []"
    by code_simp
  have 4: "tracks (addChord augmentedState) = tracks augmentedState"
    by (simp add: addChord_tracks 3)
  from 1 2 3 4 show ?thesis
    by (intro conjI)
qed

subsection \<open>The tick handler\<close>

lemma repeat_sets_lastPlayedStep:
  "lastPlayedStep (fst (repeat st time)) =
     int (stepPosOf (transportPosition st) mod (measuresCount st * 16))"
  by (simp add: repeat_def Let_def)

lemma repeat_frame:
  "transportPosition (fst (repeat st time)) = transportPosition st
   \<and> measuresCount (fst (repeat st time)) = measuresCount st
   \<and> tracks (fst (repeat st time)) = tracks st"
  by (simp add: repeat_def Let_def)

text \<open>
  Claim C2. With at least one measure, a second call of the tick handler while the transport
  reports the position of the first call issues no sound command and leaves the state of
  the first call as it is; the same holds for two ticks of the clock at one position. The
  first call, when its step differs from \<^verbatim>\<open>lastPlayedStep\<close>, issues the commands of that
  step for the channels played.
\<close>

theorem repeat_same_position_once:
  "0 < measuresCount st \<Longrightarrow>
     snd (repeat (fst (repeat st time1)) time2) = []
   \<and> fst (repeat (fst (repeat st time1)) time2) = fst (repeat st time1)
   \<and> snd (tick (fst (tick st (position, time1))) (position, time2)) = []
   \<and> (int (stepPosOf (transportPosition st) mod (measuresCount st * 16)) \<noteq> lastPlayedStep st \<longrightarrow>
        snd (repeat st time1) =
          concat (map (playInstrument st (stepPosOf (transportPosition st) mod (measuresCount st * 16)) time1)
            (if playbackTypeRef st = Some PlayAll then instrumentKeysAll else [selectedInstrumentRef st])))"
proof -
  have a: "snd (repeat (fst (repeat s t1)) t2) = []" for s t1 t2
    by (simp add: repeat_def Let_def)
  have b: "fst (repeat (fst (repeat s t1)) t2) = fst (repeat s t1)" for s t1 t2
    by (simp add: repeat_def Let_def)
  have c: "snd (tick (fst (tick s (p, t1))) (p, t2)) = []" for s p t1 t2
    by (simp add: tick_def repeat_def Let_def)
  have d: "int (stepPosOf (transportPosition st) mod (measuresCount st * 16)) \<noteq> lastPlayedStep st \<longrightarrow>
        snd (repeat st time1) =
          concat (map (playInstrument st (stepPosOf (transportPosition st) mod (measuresCount st * 16)) time1)
            (if playbackTypeRef st = Some PlayAll then instrumentKeysAll else [selectedInstrumentRef st]))"
    by (simp add: repeat_def Let_def)
  from a b c d show ?thesis
    by (intro conjI)
qed


lemma chordPlayingState_first_tick:
  "snd (repeat chordPlayingState 0) =
     [(piano, ''C4'', Steps 4, 0), (piano, ''E4'', Steps 4, 0), (piano, ''G4'', Steps 4, 0)]"
  by code_simp

theorem repeat_same_position_once_witness:
  "snd (repeat chordPlayingState 0) =
     [(piano, ''C4'', Steps 4, 0), (piano, ''E4'', Steps 4, 0), (piano, ''G4'', Steps 4, 0)]
   \<and> snd (repeat (fst (repeat chordPlayingState 0)) 0) = []
   \<and> snd (tick (fst (tick chordPlayingState ((0, 0, 0), 0))) ((0, 0, 0), 1 / 8)) = []"
proof -
  have m: "0 < measuresCount chordPlayingState"
    by code_simp
  from repeat_same_position_once [OF m, of 0 0]
  have r1: "snd (repeat (fst (repeat chordPlayingState 0)) 0) = []"
    by (rule conjunct1)
  from repeat_same_position_once [OF m, of 0 "1 / 8" "(0, 0, 0)"]
  have r2: "snd (tick (fst (tick chordPlayingState ((0, 0, 0), 0))) ((0, 0, 0), 1 / 8)) = []"
    by blast
  from chordPlayingState_first_tick r1 r2 show ?thesis
    by (intro conjI)
qed

subsection \<open>Determinism of a playback pass\<close>
























subsection \<open>Legato\<close>

lemma triggersFor_append [simp]:
  "triggersFor inst P (xs @ ys) = triggersFor inst P xs @ triggersFor inst P ys"
  by (simp add: triggersFor_def)

lemma triggersFor_Nil [simp]: "triggersFor inst P [] = []"
  by (simp add: triggersFor_def)

















subsection \<open>The run at the end of the arrangement\<close>

text \<open>
  The run only looks at later steps, so it never wraps to the start of the arrangement.
  It stays inside a bound when no cell of the pitch is active at or beyond the bound.
\<close>

lemma countRun_within:
  "\<forall>step\<ge>bound. \<not> truthy track (P, step) \<Longrightarrow> nextStep \<le> bound \<Longrightarrow>
     nextStep + countRun track P durationSteps nextStep \<le> bound + durationSteps"
proof (induction track P durationSteps nextStep rule: countRun.induct)
  case (1 track P durationSteps nextStep)
  show ?case
  proof (cases "truthy track (P, nextStep)")
    case True
    with "1.prems" have "nextStep < bound"
      by (metis le_neq_implies_less order_refl)
    with "1.IH" [OF True "1.prems"(1)] True show ?thesis
      by (subst countRun.simps) simp
  next
    case False
    with "1.prems" show ?thesis
      by (subst countRun.simps) simp
  qed
qed

lemma playKey_within:
  assumes "\<forall>step\<ge>bound. \<not> truthy track (P, step)" and "step < bound"
    and "(inst, P, Steps durationSteps, time) \<in> set (playKey inst track step time (P, step))"
  shows "step + durationSteps \<le> bound"
proof -
  from assms(3) have d: "durationSteps = countRun track P 1 (step + 1)"
    by (auto simp: playKey_def Let_def split: if_splits)
  from countRun_within [where nextStep = "step + 1" and durationSteps = 1, OF assms(1)] assms(2)
  show ?thesis
    unfolding d by simp
qed

text \<open>
  Claim C4, at an input where it fails. A C major chord of two beats is added at step 12
  while the arrangement has four measures; the arrangement is then shrunk to one measure,
  which keeps the cells of the steps 16 to 19, and playback starts at step 12. The bound is
  16, and the tick at step 12 issues each tone with a duration of 8 steps: the run counts
  the cells of the steps 16 to 19, at and beyond the bound.
\<close>

theorem legato_run_past_arrangement_end:
  "measuresCount shrunkState * 16 = 16
   \<and> currentStep shrunkState = 12
   \<and> truthy (tracks shrunkState piano) (''C4'', 16)
   \<and> truthy (tracks shrunkState piano) (''C4'', 19)
   \<and> snd (tick shrunkState ((0, 3, 0), 0)) =
       [(piano, ''C4'', Steps 8, 0), (piano, ''E4'', Steps 8, 0), (piano, ''G4'', Steps 8, 0)]"
  by code_simp

text \<open>The edits keep every key of a track stored once.\<close>

lemma toggleNote_distinct:
  "distinct (map fst (tracks st inst)) \<Longrightarrow>
     distinct (map fst (tracks (toggleNote st noteName octave noteStep forceState) inst))"
  by (auto simp: toggleNote_def Let_def distinct_update)

lemma addChord_distinct:
  "distinct (map fst (tracks st inst)) \<Longrightarrow> distinct (map fst (tracks (addChord st) inst))"
  by (auto simp: addChord_tracks distinct_fold_update)

end
